theory Spec2Isabelle
  imports Main "HOL-Library.Multiset" "HOL-Library.Sublist"
begin

section \<open>Firmware version dashboard: data model\<close>

text \<open>
  The component of \<^verbatim>\<open>firmware_version_dashboard.jsx\<close> holds a list of firmware
  records and derives from it a filtered and sorted view and a last-updated date.
  JavaScript strings are modelled as \<^typ>\<open>string\<close>, one \<^typ>\<open>char\<close> per code unit
  (the code units below 256). An optional field (\<^verbatim>\<open>hardware_rev\<close>, \<^verbatim>\<open>notes\<close>) is an
  \<^typ>\<open>string option\<close>, \<^const>\<open>None\<close> standing for an absent (undefined) field.
\<close>

record FirmwareRecord =
  product_code :: string
  product_name :: string
  hardware_rev :: "string option"
  channel :: string
  version :: string
  released_at :: string
  "notes" :: "string option"

datatype SortKey = SK_product_name | SK_product_code | SK_version | SK_released_at

datatype DataMode = Inline | Remote

definition DATA_MODE :: DataMode where
  "DATA_MODE = Inline"

definition INLINE_DATA :: "FirmwareRecord list" where
  "INLINE_DATA =
    [ \<lparr> product_code = ''PW-SEN-AL7700'', product_name = ''Pacwave PIR Ceiling Sensor'',
        hardware_rev = Some ''A2'', channel = ''approved'', version = ''1.4.2'',
        released_at = ''2025-08-20T09:15:00Z'',
        notes = Some ''Improved UART framing; fix delayed IRS.'' \<rparr>,
      \<lparr> product_code = ''PW-SEN-AL7700'', product_name = ''Pacwave PIR Ceiling Sensor'',
        hardware_rev = Some ''A2'', channel = ''beta'', version = ''1.5.0-beta.2'',
        released_at = ''2025-08-21T02:01:00Z'',
        notes = Some ''Adds anti-rollback check.'' \<rparr>,
      \<lparr> product_code = ''BL652-GW'', product_name = ''Silvair BLE Mesh Gateway'',
        hardware_rev = Some ''B1'', channel = ''approved'', version = ''3.2.0'',
        released_at = ''2025-08-15T18:00:00Z'',
        notes = Some ''Gateway stability fixes for 100+ nodes.'' \<rparr>,
      \<lparr> product_code = ''AL1039-I-CB'', product_name = ''DALI Controller (Casambi)'',
        hardware_rev = Some ''C0'', channel = ''approved'', version = ''2.7.1'',
        released_at = ''2025-08-10T01:10:00Z'',
        notes = Some ''DT8 RGBW mapping safeguard.'' \<rparr> ]"

section \<open>The string operations the component calls\<close>

text \<open>
  \<^verbatim>\<open>String.prototype.trim\<close> strips white space and line terminators from both ends;
  among the code units below 256 these are TAB, LF, VT, FF, CR, SPACE and NBSP.
\<close>

definition isWhiteSpace :: "char \<Rightarrow> bool" where
  "isWhiteSpace c = ((of_char c :: nat) \<in> {9, 10, 11, 12, 13, 32, 160})"

definition trim :: "string \<Rightarrow> string" where
  "trim s = rev (dropWhile isWhiteSpace (rev (dropWhile isWhiteSpace s)))"

text \<open>
  \<^verbatim>\<open>String.prototype.toLowerCase\<close> on code units below 256: the letters A to Z and
  the capital letters of the Latin-1 supplement move up by 32.
\<close>

definition toLowerCase_char :: "char \<Rightarrow> char" where
  "toLowerCase_char c =
     (let n = (of_char c :: nat)
      in if (65 \<le> n \<and> n \<le> 90) \<or> (192 \<le> n \<and> n \<le> 222 \<and> n \<noteq> 215)
         then char_of (n + 32) else c)"

definition toLowerCase :: "string \<Rightarrow> string" where
  "toLowerCase s = map toLowerCase_char s"

text \<open>\<^verbatim>\<open>s.includes(needle)\<close>: the needle occurs in \<open>s\<close> as a contiguous substring.\<close>

fun str_includes :: "string \<Rightarrow> string \<Rightarrow> bool" where
  "str_includes [] needle = (needle = [])"
| "str_includes (c # cs) needle = (prefix needle (c # cs) \<or> str_includes cs needle)"

text \<open>\<^verbatim>\<open>(x || "")\<close> on an optional string: the absent field and the empty string give \<open>""\<close>.\<close>

fun or_empty :: "string option \<Rightarrow> string" where
  "or_empty None = []"
| "or_empty (Some s) = s"

section \<open>The host environment\<close>

text \<open>
  Date parsing and locale-aware comparison are supplied by the JavaScript engine and
  differ between engines and locales, so the view pipeline takes them as parameters.
  \<^item> \<open>Date_getTime s\<close> is \<^verbatim>\<open>new Date(s).getTime()\<close>: the time value in milliseconds
    since the epoch, \<^const>\<open>None\<close> for an Invalid Date (NaN);
  \<^item> \<open>localeCompare a b\<close> is \<^verbatim>\<open>a.localeCompare(b)\<close>;
  \<^item> \<open>localeCompare_numeric a b\<close> is
    \<^verbatim>\<open>a.localeCompare(b, undefined, { numeric: true, sensitivity: "base" })\<close>.
\<close>

record Host =
  Date_getTime :: "string \<Rightarrow> int option"
  localeCompare :: "string \<Rightarrow> string \<Rightarrow> int"
  localeCompare_numeric :: "string \<Rightarrow> string \<Rightarrow> int"

section \<open>The view pipeline\<close>

text \<open>Line 95: \<^verbatim>\<open>.filter((r) => (showBeta ? true : r.channel !== "beta"))\<close>.\<close>

definition channel_pred :: "bool \<Rightarrow> FirmwareRecord \<Rightarrow> bool" where
  "channel_pred showBeta r = (if showBeta then True else channel r \<noteq> ''beta'')"

definition channel_filter :: "bool \<Rightarrow> FirmwareRecord list \<Rightarrow> FirmwareRecord list" where
  "channel_filter showBeta records = filter (channel_pred showBeta) records"

text \<open>Lines 96 to 101: the text filter on product name, product code and hardware revision.\<close>

definition text_pred :: "string \<Rightarrow> FirmwareRecord \<Rightarrow> bool" where
  "text_pred needle r =
     (str_includes (toLowerCase (product_name r)) needle \<or>
      str_includes (toLowerCase (product_code r)) needle \<or>
      str_includes (toLowerCase (or_empty (hardware_rev r))) needle)"

definition text_filter :: "string \<Rightarrow> FirmwareRecord list \<Rightarrow> FirmwareRecord list" where
  "text_filter needle records = filter (text_pred needle) records"

text \<open>
  Lines 102 to 111: the comparator. A subtraction of time values is NaN as soon as one
  of them is NaN; the other two branches return what the host's comparison returns.
\<close>

fun number_minus :: "int option \<Rightarrow> int option \<Rightarrow> int option" where
  "number_minus (Some x) (Some y) = Some (x - y)"
| "number_minus _ _ = None"

definition field_of :: "SortKey \<Rightarrow> FirmwareRecord \<Rightarrow> string" where
  "field_of k r = (case k of SK_product_name \<Rightarrow> product_name r
                    | SK_product_code \<Rightarrow> product_code r
                    | SK_version \<Rightarrow> version r
                    | SK_released_at \<Rightarrow> released_at r)"

definition comparator :: "Host \<Rightarrow> SortKey \<Rightarrow> FirmwareRecord \<Rightarrow> FirmwareRecord \<Rightarrow> int option" where
  "comparator H sortKey a b =
     (if sortKey = SK_released_at
      then number_minus (Date_getTime H (released_at b)) (Date_getTime H (released_at a))
      else if sortKey = SK_version
      then Some (localeCompare_numeric H (version b) (version a))
      else Some (localeCompare H (field_of sortKey a) (field_of sortKey b)))"

text \<open>
  \<^verbatim>\<open>Array.prototype.sort\<close> with a comparator. The language's SortCompare reads a NaN
  returned by the comparator as \<open>+0\<close>. The sort is stable; it is modelled as a stable
  insertion sort, which gives the order the language prescribes whenever the comparator
  is consistent (for an inconsistent comparator the language leaves the order to the
  engine). The sort runs on the fresh array that \<^verbatim>\<open>filter\<close> returned, so the record
  list of the component is not changed by it.
\<close>

definition SortCompare :: "('a \<Rightarrow> 'a \<Rightarrow> int option) \<Rightarrow> 'a \<Rightarrow> 'a \<Rightarrow> int" where
  "SortCompare cmp a b = (case cmp a b of None \<Rightarrow> 0 | Some v \<Rightarrow> v)"

fun insert_sorted :: "('a \<Rightarrow> 'a \<Rightarrow> int option) \<Rightarrow> 'a \<Rightarrow> 'a list \<Rightarrow> 'a list" where
  "insert_sorted cmp x [] = [x]"
| "insert_sorted cmp x (y # ys) =
     (if SortCompare cmp x y \<le> 0 then x # y # ys else y # insert_sorted cmp x ys)"

definition Array_sort :: "('a \<Rightarrow> 'a \<Rightarrow> int option) \<Rightarrow> 'a list \<Rightarrow> 'a list" where
  "Array_sort cmp xs = foldr (insert_sorted cmp) xs []"

text \<open>Lines 92 to 112: the derived view.\<close>

definition filtered ::
  "Host \<Rightarrow> FirmwareRecord list \<Rightarrow> string \<Rightarrow> bool \<Rightarrow> SortKey \<Rightarrow> FirmwareRecord list" where
  "filtered H records q showBeta sortKey =
     (let needle = toLowerCase (trim q)
      in Array_sort (comparator H sortKey) (text_filter needle (channel_filter showBeta records)))"

text \<open>
  Lines 114 to 117: the last-updated date. \<^verbatim>\<open>reduce\<close> with an initial value is a
  left fold. Two \<^verbatim>\<open>Date\<close> objects are compared by their time values, and a comparison
  with NaN is false. The result is a \<^verbatim>\<open>Date\<close>, modelled by its time value.
\<close>

fun Date_gt :: "int option \<Rightarrow> int option \<Rightarrow> bool" where
  "Date_gt (Some x) (Some y) = (x > y)"
| "Date_gt _ _ = False"

definition latest :: "Host \<Rightarrow> FirmwareRecord list \<Rightarrow> string" where
  "latest H records =
     foldl (\<lambda>acc r. if Date_gt (Date_getTime H (released_at r)) (Date_getTime H acc)
                     then released_at r else acc)
           ''1970-01-01T00:00:00Z'' records"

definition lastUpdated :: "Host \<Rightarrow> FirmwareRecord list \<Rightarrow> int option" where
  "lastUpdated H records = Date_getTime H (latest H records)"

section \<open>Rendering\<close>

text \<open>Lines 173 to 180: the badge of a card.\<close>

definition badge_label :: "FirmwareRecord \<Rightarrow> string" where
  "badge_label r = (if channel r = ''approved'' then ''Approved'' else ''Beta'')"

text \<open>The exceptions of the language that the component can meet, and \<^verbatim>\<open>String(e)\<close>.\<close>

datatype js_error = Error string | TypeError string | SyntaxError string | RangeError string

definition error_text :: "string \<Rightarrow> string \<Rightarrow> string" where
  "error_text name msg = (if msg = [] then name else name @ '': '' @ msg)"

fun String_of_error :: "js_error \<Rightarrow> string" where
  "String_of_error (Error msg) = error_text ''Error'' msg"
| "String_of_error (TypeError msg) = error_text ''TypeError'' msg"
| "String_of_error (SyntaxError msg) = error_text ''SyntaxError'' msg"
| "String_of_error (RangeError msg) = error_text ''RangeError'' msg"

text \<open>Decimal digits: a number in a template literal, and the fixed-width fields of a date.\<close>

definition digit_char :: "nat \<Rightarrow> char" where
  "digit_char n = char_of (48 + n)"

fun show_nat :: "nat \<Rightarrow> string" where
  "show_nat n = (if n < 10 then [digit_char n] else show_nat (n div 10) @ [digit_char (n mod 10)])"

declare show_nat.simps [simp del]

fun dec :: "nat \<Rightarrow> nat \<Rightarrow> string" where
  "dec 0 n = []"
| "dec (Suc w) n = dec w (n div 10) @ [digit_char (n mod 10)]"

text \<open>
  \<^verbatim>\<open>Date.prototype.toISOString\<close>: the civil date of the day number (proleptic Gregorian
  calendar), then the time of day; a year outside 0 to 9999 is written with a sign and
  six digits. On an Invalid Date it throws a RangeError.
\<close>

definition civil_from_days :: "int \<Rightarrow> int \<times> int \<times> int" where
  "civil_from_days z0 =
     (let z = z0 + 719468;
          era = z div 146097;
          doe = z mod 146097;
          yoe = (doe - doe div 1460 + doe div 36524 - doe div 146096) div 365;
          doy = doe - (365 * yoe + yoe div 4 - yoe div 100);
          mp = (5 * doy + 2) div 153;
          d = doy - (153 * mp + 2) div 5 + 1;
          m = (if mp < 10 then mp + 3 else mp - 9);
          y = yoe + era * 400
      in (if m \<le> 2 then y + 1 else y, m, d))"

definition year_string :: "int \<Rightarrow> string" where
  "year_string y =
     (if 0 \<le> y \<and> y \<le> 9999 then dec 4 (nat y)
      else (if y < 0 then ''-'' else ''+'') @ dec 6 (nat \<bar>y\<bar>))"

definition iso_seconds :: "int \<Rightarrow> string" where
  "iso_seconds t =
     (let (y, m, d) = civil_from_days (t div 86400000);
          ms = t mod 86400000
      in year_string y @ ''-'' @ dec 2 (nat m) @ ''-'' @ dec 2 (nat d) @ ''T'' @
         dec 2 (nat (ms div 3600000)) @ '':'' @ dec 2 (nat (ms div 60000 mod 60)) @ '':'' @
         dec 2 (nat (ms div 1000 mod 60)))"

definition toISOString :: "int \<Rightarrow> string" where
  "toISOString t = iso_seconds t @ ''.'' @ dec 3 (nat (t mod 1000)) @ ''Z''"

definition Date_toISOString :: "int option \<Rightarrow> js_error + string" where
  "Date_toISOString d =
     (case d of None \<Rightarrow> Inl (RangeError ''Invalid time value'') | Some t \<Rightarrow> Inr (toISOString t))"

text \<open>\<^verbatim>\<open>s.replace(pat, rep)\<close> with a string pattern replaces the first occurrence only.\<close>

fun String_replace :: "string \<Rightarrow> string \<Rightarrow> string \<Rightarrow> string" where
  "String_replace [] pat rep = (if pat = [] then rep else [])"
| "String_replace (c # cs) pat rep =
     (if prefix pat (c # cs) then rep @ drop (length pat) (c # cs)
      else c # String_replace cs pat rep)"

text \<open>
  Line 191: \<^verbatim>\<open>new Date(r.released_at).toISOString().replace(".000Z", "Z")\<close>. The
  exception of \<^verbatim>\<open>toISOString\<close> is not caught by the component.
\<close>

definition release_date_cell :: "Host \<Rightarrow> FirmwareRecord \<Rightarrow> js_error + string" where
  "release_date_cell H r =
     (case Date_toISOString (Date_getTime H (released_at r)) of
        Inl e \<Rightarrow> Inl e
      | Inr str \<Rightarrow> Inr (String_replace str ''.000Z'' ''Z''))"

section \<open>A concrete host\<close>

text \<open>
  A host to evaluate the pipeline on concrete inputs. Its date parser reads the two
  forms \<^verbatim>\<open>YYYY-MM-DDTHH:mm:ssZ\<close> and \<^verbatim>\<open>YYYY-MM-DDTHH:mm:ss.sssZ\<close> of the language's
  date-time string format, where every engine agrees, and gives an Invalid Date on every
  other string. Its comparison orders strings by code unit; it is a consistent
  comparator, not a locale's collation, and takes no account of numeric substrings.
\<close>

definition is_digit :: "char \<Rightarrow> bool" where
  "is_digit c = (48 \<le> (of_char c :: nat) \<and> (of_char c :: nat) \<le> 57)"

definition number_of_digits :: "string \<Rightarrow> int" where
  "number_of_digits s = foldl (\<lambda>acc c. 10 * acc + (int (of_char c) - 48)) 0 s"

definition is_leap :: "int \<Rightarrow> bool" where
  "is_leap y = (y mod 4 = 0 \<and> (y mod 100 \<noteq> 0 \<or> y mod 400 = 0))"

definition days_in_month :: "int \<Rightarrow> int \<Rightarrow> int" where
  "days_in_month y m =
     (if m = 2 then (if is_leap y then 29 else 28)
      else if m = 4 \<or> m = 6 \<or> m = 9 \<or> m = 11 then 30 else 31)"

definition days_from_civil :: "int \<Rightarrow> int \<Rightarrow> int \<Rightarrow> int" where
  "days_from_civil y0 m d =
     (let y = (if m \<le> 2 then y0 - 1 else y0);
          era = y div 400;
          yoe = y mod 400;
          doy = (153 * (if m > 2 then m - 3 else m + 9) + 2) div 5 + d - 1;
          doe = yoe * 365 + yoe div 4 - yoe div 100 + doy
      in era * 146097 + doe - 719468)"

definition iso_shape :: "string \<Rightarrow> bool" where
  "iso_shape s =
     ((length s = 20 \<or> length s = 24) \<and>
      list_all is_digit (take 4 s) \<and> s ! 4 = CHR ''-'' \<and>
      list_all is_digit (take 2 (drop 5 s)) \<and> s ! 7 = CHR ''-'' \<and>
      list_all is_digit (take 2 (drop 8 s)) \<and> s ! 10 = CHR ''T'' \<and>
      list_all is_digit (take 2 (drop 11 s)) \<and> s ! 13 = CHR '':'' \<and>
      list_all is_digit (take 2 (drop 14 s)) \<and> s ! 16 = CHR '':'' \<and>
      list_all is_digit (take 2 (drop 17 s)) \<and>
      (if length s = 20 then drop 19 s = ''Z''
       else s ! 19 = CHR ''.'' \<and> list_all is_digit (take 3 (drop 20 s)) \<and> drop 23 s = ''Z''))"

definition iso_getTime :: "string \<Rightarrow> int option" where
  "iso_getTime s =
     (if iso_shape s then
        (let y = number_of_digits (take 4 s);
             mo = number_of_digits (take 2 (drop 5 s));
             d = number_of_digits (take 2 (drop 8 s));
             h = number_of_digits (take 2 (drop 11 s));
             mi = number_of_digits (take 2 (drop 14 s));
             sec = number_of_digits (take 2 (drop 17 s));
             ms = (if length s = 24 then number_of_digits (take 3 (drop 20 s)) else 0)
         in if 1 \<le> mo \<and> mo \<le> 12 \<and> 1 \<le> d \<and> d \<le> days_in_month y mo \<and>
               h \<le> 23 \<and> mi \<le> 59 \<and> sec \<le> 59
            then Some (days_from_civil y mo d * 86400000 + h * 3600000 + mi * 60000 +
                       sec * 1000 + ms)
            else None)
      else None)"

fun code_unit_compare :: "string \<Rightarrow> string \<Rightarrow> int" where
  "code_unit_compare [] [] = 0"
| "code_unit_compare [] (y # ys) = - 1"
| "code_unit_compare (x # xs) [] = 1"
| "code_unit_compare (x # xs) (y # ys) =
     (if (of_char x :: nat) < of_char y then - 1
      else if (of_char y :: nat) < of_char x then 1
      else code_unit_compare xs ys)"

definition iso_host :: Host where
  "iso_host = \<lparr> Date_getTime = iso_getTime, localeCompare = code_unit_compare,
                localeCompare_numeric = code_unit_compare \<rparr>"

section \<open>Data acquisition\<close>

text \<open>
  What \<^verbatim>\<open>r.json()\<close> hands to the component is any JSON value, and line 84 stores it
  in the record slot as it is, so the slot holds a JSON value. The type of numbers is
  left open. An object lists its members in order.
\<close>

datatype 'n json_value =
    JNull
  | JBool bool
  | JNumber 'n
  | JString string
  | JArray "'n json_value list"
  | JObject "(string \<times> 'n json_value) list"

text \<open>A list of records as the value the slot holds; an absent optional field has no member.\<close>

definition json_of_record :: "FirmwareRecord \<Rightarrow> 'n json_value" where
  "json_of_record r =
     JObject
       ([(''product_code'', JString (product_code r)),
         (''product_name'', JString (product_name r))] @
        (case hardware_rev r of None \<Rightarrow> [] | Some h \<Rightarrow> [(''hardware_rev'', JString h)]) @
        [(''channel'', JString (channel r)),
         (''version'', JString (version r)),
         (''released_at'', JString (released_at r))] @
        (case notes r of None \<Rightarrow> [] | Some n \<Rightarrow> [(''notes'', JString n)]))"

definition json_of_records :: "FirmwareRecord list \<Rightarrow> 'n json_value" where
  "json_of_records rs = JArray (map json_of_record rs)"

text \<open>
  Reading a value as a list of records: an array of objects whose five required members
  are strings and whose two optional members are strings when present. Of a repeated
  name the last member counts. On every other value the result is \<^const>\<open>None\<close>: the
  value is not a list of records.
\<close>

definition member :: "(string \<times> 'n json_value) list \<Rightarrow> string \<Rightarrow> 'n json_value option" where
  "member kvs k = map_of (rev kvs) k"

definition required_string :: "(string \<times> 'n json_value) list \<Rightarrow> string \<Rightarrow> string option" where
  "required_string kvs k = (case member kvs k of Some (JString s) \<Rightarrow> Some s | _ \<Rightarrow> None)"

definition optional_string ::
  "(string \<times> 'n json_value) list \<Rightarrow> string \<Rightarrow> string option option" where
  "optional_string kvs k =
     (case member kvs k of None \<Rightarrow> Some None | Some (JString s) \<Rightarrow> Some (Some s) | _ \<Rightarrow> None)"

fun record_of_json :: "'n json_value \<Rightarrow> FirmwareRecord option" where
  "record_of_json (JObject kvs) =
     Option.bind (required_string kvs ''product_code'') (\<lambda>pc.
     Option.bind (required_string kvs ''product_name'') (\<lambda>pn.
     Option.bind (optional_string kvs ''hardware_rev'') (\<lambda>hw.
     Option.bind (required_string kvs ''channel'') (\<lambda>ch.
     Option.bind (required_string kvs ''version'') (\<lambda>ve.
     Option.bind (required_string kvs ''released_at'') (\<lambda>ra.
     Option.bind (optional_string kvs ''notes'') (\<lambda>no.
       Some \<lparr> product_code = pc, product_name = pn, hardware_rev = hw, channel = ch,
              version = ve, released_at = ra, notes = no \<rparr>)))))))"
| "record_of_json _ = None"

fun records_of_json :: "'n json_value \<Rightarrow> FirmwareRecord list option" where
  "records_of_json (JArray xs) = those (map record_of_json xs)"
| "records_of_json _ = None"

text \<open>
  Lines 75 to 90: the fetch effect. \<^verbatim>\<open>fetch\<close> either rejects with an exception or
  resolves with a response, which carries a status and a body; reading the body with
  \<^verbatim>\<open>r.json()\<close> either rejects (the body is not JSON) or resolves with the parsed
  value, whatever its shape. A promise is modelled by what it settles to: \<^const>\<open>Inl\<close> a
  rejection, \<^const>\<open>Inr\<close> a value. \<^verbatim>\<open>r.ok\<close> holds for a status from 200 to 299.
\<close>

record 'n Response =
  status :: nat
  json :: "js_error + 'n json_value"

definition ok :: "'n Response \<Rightarrow> bool" where
  "ok r = (200 \<le> status r \<and> status r \<le> 299)"

record 'n State =
  records :: "'n json_value"
  loading :: bool
  error :: "string option"
  q :: string
  showBeta :: bool
  sortKey :: SortKey

definition initial_state :: "DataMode \<Rightarrow> 'n State" where
  "initial_state mode =
     \<lparr> records = json_of_records INLINE_DATA, loading = (mode = Remote), error = None, q = [],
       showBeta = False, sortKey = SK_product_name \<rparr>"

definition on_response :: "'n Response \<Rightarrow> js_error + 'n json_value" where
  "on_response r = (if \<not> ok r then Inl (Error (''HTTP '' @ show_nat (status r))) else json r)"

definition on_json :: "'n json_value \<Rightarrow> 'n State \<Rightarrow> 'n State" where
  "on_json j st = st\<lparr>records := j, error := None\<rparr>"

definition on_catch :: "js_error \<Rightarrow> 'n State \<Rightarrow> 'n State" where
  "on_catch e st = st\<lparr>error := Some (String_of_error e)\<rparr>"

definition on_finally :: "'n State \<Rightarrow> 'n State" where
  "on_finally st = st\<lparr>loading := False\<rparr>"

definition settled :: "js_error + 'n Response \<Rightarrow> js_error + 'n json_value" where
  "settled outcome = (case outcome of Inl e \<Rightarrow> Inl e | Inr r \<Rightarrow> on_response r)"

definition fetch_effect :: "DataMode \<Rightarrow> js_error + 'n Response \<Rightarrow> 'n State \<Rightarrow> 'n State" where
  "fetch_effect mode outcome st =
     (if mode = Remote then
        (let st1 = st\<lparr>loading := True\<rparr>;
             st2 = (case settled outcome of
                      Inr j \<Rightarrow> on_json j st1
                    | Inl e \<Rightarrow> on_catch e st1)
         in on_finally st2)
      else st)"

section \<open>Notions used to state the properties\<close>

text \<open>
  \<open>sort_le cmp a b\<close>: the sort may leave \<open>a\<close> before \<open>b\<close>. A comparator is consistent
  on a list when this relation is total and transitive on the elements of the list; the
  language asks it of every comparator handed to \<^verbatim>\<open>sort\<close>, and of \<^verbatim>\<open>localeCompare\<close>.
\<close>

definition sort_le :: "('a \<Rightarrow> 'a \<Rightarrow> int option) \<Rightarrow> 'a \<Rightarrow> 'a \<Rightarrow> bool" where
  "sort_le cmp a b = (SortCompare cmp a b \<le> 0)"



text \<open>
  The numeric comparison \<^verbatim>\<open>a >= b\<close> of two time values, false as soon as one of them
  is NaN; the parsed time values of a list of records; a sequence of time values in
  which every earlier one is \<^verbatim>\<open>>=\<close> every later one.
\<close>

definition Number_ge :: "int option \<Rightarrow> int option \<Rightarrow> bool" where
  "Number_ge a b = (case (a, b) of (Some x, Some y) \<Rightarrow> x \<ge> y | _ \<Rightarrow> False)"

definition release_times :: "Host \<Rightarrow> FirmwareRecord list \<Rightarrow> int option list" where
  "release_times H rs = map (\<lambda>r. Date_getTime H (released_at r)) rs"

definition non_increasing :: "int option list \<Rightarrow> bool" where
  "non_increasing ts = sorted_wrt Number_ge ts"

text \<open>The time values of the records whose \<^verbatim>\<open>released_at\<close> parses.\<close>

definition valid_times :: "Host \<Rightarrow> FirmwareRecord list \<Rightarrow> int list" where
  "valid_times H rs = List.map_filter (\<lambda>r. Date_getTime H (released_at r)) rs"

section \<open>Basic facts about the string operations and the sort\<close>

lemma includes_empty: "str_includes s [] = True"
  by (cases s) simp_all

lemma text_pred_empty: "text_pred [] r = True"
  by (simp add: text_pred_def includes_empty)

lemma text_filter_empty: "text_filter [] L = L"
  by (simp add: text_filter_def text_pred_empty)

lemma mset_insert_sorted: "mset (insert_sorted cmp x ys) = add_mset x (mset ys)"
  by (induction ys) simp_all

lemma mset_Array_sort: "mset (Array_sort cmp xs) = mset xs"
  by (induction xs) (simp_all add: Array_sort_def mset_insert_sorted)

lemma set_Array_sort: "set (Array_sort cmp xs) = set xs"
  using mset_Array_sort [of cmp xs] by (metis set_mset_mset)

lemma mset_filtered:
  "mset (filtered H L qry beta key) =
     {#r \<in># mset L. channel_pred beta r \<and> text_pred (toLowerCase (trim qry)) r#}"
  by (simp add: filtered_def mset_Array_sort text_filter_def channel_filter_def)

lemma set_filtered:
  "set (filtered H L qry beta key) =
     {r \<in> set L. channel_pred beta r \<and> text_pred (toLowerCase (trim qry)) r}"
  by (auto simp add: filtered_def set_Array_sort text_filter_def channel_filter_def)

subsection \<open>The sort under a consistent comparator\<close>

lemma set_insert_sorted: "set (insert_sorted cmp x ys) = insert x (set ys)"
  by (induction ys) auto

lemma sorted_insert_sorted:
  assumes tot: "\<forall>a \<in> A. \<forall>b \<in> A. sort_le cmp a b \<or> sort_le cmp b a"
    and trans: "\<forall>a \<in> A. \<forall>b \<in> A. \<forall>c \<in> A. sort_le cmp a b \<longrightarrow> sort_le cmp b c \<longrightarrow> sort_le cmp a c"
    and x: "x \<in> A"
  shows "set ys \<subseteq> A \<Longrightarrow> sorted_wrt (sort_le cmp) ys \<Longrightarrow> sorted_wrt (sort_le cmp) (insert_sorted cmp x ys)"
proof (induction ys)
  case Nil
  then show ?case by simp
next
  case (Cons y ys)
  have y: "y \<in> A" and ys: "set ys \<subseteq> A" using Cons.prems(1) by simp_all
  have srt: "sorted_wrt (sort_le cmp) ys" and yle: "\<forall>z \<in> set ys. sort_le cmp y z"
    using Cons.prems(2) by simp_all
  show ?case
  proof (cases "SortCompare cmp x y \<le> 0")
    case True
    then have xy: "sort_le cmp x y" by (simp add: sort_le_def)
    have "\<forall>z \<in> set ys. sort_le cmp x z"
    proof
      fix z assume z: "z \<in> set ys"
      then have "z \<in> A" using ys by blast
      moreover have "sort_le cmp y z" using yle z by blast
      ultimately show "sort_le cmp x z" using trans x y xy by blast
    qed
    with True xy Cons.prems(2) show ?thesis by simp
  next
    case False
    then have "\<not> sort_le cmp x y" by (simp add: sort_le_def)
    then have yx: "sort_le cmp y x" using tot x y by blast
    have "sorted_wrt (sort_le cmp) (insert_sorted cmp x ys)"
      using Cons.IH ys srt by blast
    with False yx yle show ?thesis by (simp add: set_insert_sorted)
  qed
qed

lemma sorted_Array_sort_aux:
  assumes tot: "\<forall>a \<in> A. \<forall>b \<in> A. sort_le cmp a b \<or> sort_le cmp b a"
    and trans: "\<forall>a \<in> A. \<forall>b \<in> A. \<forall>c \<in> A. sort_le cmp a b \<longrightarrow> sort_le cmp b c \<longrightarrow> sort_le cmp a c"
  shows "set xs \<subseteq> A \<Longrightarrow> sorted_wrt (sort_le cmp) (Array_sort cmp xs)"
proof (induction xs)
  case Nil
  then show ?case by (simp add: Array_sort_def)
next
  case (Cons x xs)
  then have "sorted_wrt (sort_le cmp) (Array_sort cmp xs)" by simp
  moreover have "set (Array_sort cmp xs) \<subseteq> A" using Cons.prems by (simp add: set_Array_sort)
  moreover have "x \<in> A" using Cons.prems by simp
  ultimately have "sorted_wrt (sort_le cmp) (insert_sorted cmp x (Array_sort cmp xs))"
    using sorted_insert_sorted [OF tot trans] by blast
  then show ?case by (simp add: Array_sort_def)
qed







lemma sort_le_date:
  assumes a: "Date_getTime H (released_at a) = Some ta" and b: "Date_getTime H (released_at b) = Some tb"
  shows "sort_le (comparator H SK_released_at) a b = (tb \<le> ta)"
  using a b by (simp add: sort_le_def comparator_def SortCompare_def)

subsection \<open>Substrings\<close>

lemma str_includes_self: "str_includes s s"
  by (cases s) simp_all

lemma str_includes_append: "str_includes (p @ s) s"
  by (induction p) (simp_all add: str_includes_self)

subsection \<open>The fold of the last-updated date\<close>

lemma Max_absorb_le:
  assumes "finite S" and "t \<le> (a::int)"
  shows "Max (insert a (insert t S)) = Max (insert a S)"
proof -
  have "Max (insert t (insert a S)) = max t (Max (insert a S))"
    using assms(1) by (simp add: Max_insert)
  moreover have "a \<le> Max (insert a S)"
    using assms(1) by (simp add: Max_ge)
  ultimately show ?thesis
    using assms(2) by (simp add: insert_commute max_def)
qed

lemma Max_absorb_gt:
  assumes "finite S" and "(a::int) < t"
  shows "Max (insert a (insert t S)) = Max (insert t S)"
proof -
  have "Max (insert a (insert t S)) = max a (Max (insert t S))"
    using assms(1) by (simp add: Max_insert)
  moreover have "t \<le> Max (insert t S)"
    using assms(1) by (simp add: Max_ge)
  ultimately show ?thesis
    using assms(2) by (simp add: max_def)
qed

lemma valid_times_Cons:
  "valid_times H (r # rs) =
     (case Date_getTime H (released_at r) of None \<Rightarrow> valid_times H rs
      | Some t \<Rightarrow> t # valid_times H rs)"
  by (simp add: valid_times_def map_filter_simps split: option.split)

lemma latest_fold:
  "Date_getTime H acc = Some a \<Longrightarrow>
     Date_getTime H
       (foldl (\<lambda>acc r. if Date_gt (Date_getTime H (released_at r)) (Date_getTime H acc)
                        then released_at r else acc) acc rs) =
     Some (Max (set (a # valid_times H rs)))"
proof (induction rs arbitrary: acc a)
  case Nil
  then show ?case by (simp add: valid_times_def map_filter_simps)
next
  case (Cons r rs)
  show ?case
  proof (cases "Date_getTime H (released_at r)")
    case None
    with Cons show ?thesis by (simp add: valid_times_Cons)
  next
    case (Some t)
    show ?thesis
    proof (cases "a < t")
      case True
      have "Max (insert a (insert t (set (valid_times H rs)))) = Max (insert t (set (valid_times H rs)))"
        using _ True by (rule Max_absorb_gt) simp
      with True Some Cons.prems Cons.IH [of "released_at r" t] show ?thesis
        by (simp add: valid_times_Cons)
    next
      case False
      then have "t \<le> a" by simp
      have "Max (insert a (insert t (set (valid_times H rs)))) = Max (insert a (set (valid_times H rs)))"
        using _ \<open>t \<le> a\<close> by (rule Max_absorb_le) simp
      with False Some Cons.prems Cons.IH [of acc a] show ?thesis
        by (simp add: valid_times_Cons)
    qed
  qed
qed

subsection \<open>Digits, and the replacement in an ISO string\<close>

lemma of_char_digit_char: "k < 10 \<Longrightarrow> (of_char (digit_char k) :: nat) = 48 + k"
  by (simp add: digit_char_def)

lemma digit_char_not_dot: "k < 10 \<Longrightarrow> digit_char k \<noteq> CHR ''.''"
proof
  assume k: "k < 10" and eq: "digit_char k = CHR ''.''"
  have "(of_char (digit_char k) :: nat) = 48 + k" using k by (rule of_char_digit_char)
  with eq show False by simp
qed

lemma digit_char_zero_iff: "k < 10 \<Longrightarrow> (digit_char k = CHR ''0'') = (k = 0)"
proof
  assume k: "k < 10" and eq: "digit_char k = CHR ''0''"
  have "(of_char (digit_char k) :: nat) = 48 + k" using k by (rule of_char_digit_char)
  with eq show "k = 0" by simp
next
  assume "k = 0"
  then have "(of_char (digit_char k) :: nat) = of_char CHR ''0''"
    by (simp add: of_char_digit_char)
  then show "digit_char k = CHR ''0''" by (simp only: of_char_eq_iff)
qed


lemma zero_digit_char_iff: "k < 10 \<Longrightarrow> (CHR ''0'' = digit_char k) = (k = 0)"
proof -
  assume k: "k < 10"
  have "(CHR ''0'' = digit_char k) = (digit_char k = CHR ''0'')"
    by (rule eq_commute)
  also have "\<dots> = (k = 0)"
    using k by (rule digit_char_zero_iff)
  finally show ?thesis .
qed

lemma dot_notin_dec: "CHR ''.'' \<notin> set (dec w n)"
proof (induction w arbitrary: n)
  case 0
  show ?case by simp
next
  case (Suc w)
  have "digit_char (n mod 10) \<noteq> CHR ''.''" by (rule digit_char_not_dot) simp
  with Suc show ?case by auto
qed

lemma length_dec: "length (dec w n) = w"
  by (induction w arbitrary: n) simp_all

lemma dot_notin_year_string: "CHR ''.'' \<notin> set (year_string y)"
  by (simp add: year_string_def dot_notin_dec)

lemma dot_notin_iso_seconds: "CHR ''.'' \<notin> set (iso_seconds t)"
  by (simp add: iso_seconds_def Let_def dot_notin_year_string dot_notin_dec split: prod.split)

lemma String_replace_skip:
  "CHR ''.'' \<notin> set pre \<Longrightarrow>
     String_replace (pre @ s) (CHR ''.'' # p) rep = pre @ String_replace s (CHR ''.'' # p) rep"
  by (induction pre) auto

lemma String_replace_none:
  "CHR ''.'' \<notin> set s \<Longrightarrow> String_replace s (CHR ''.'' # p) rep = s"
  using String_replace_skip [of s "[]" p rep] by simp

lemma dec3:
  "dec 3 m = [digit_char (m div 10 div 10 mod 10), digit_char (m div 10 mod 10), digit_char (m mod 10)]"
  by (simp add: numeral_3_eq_3)

lemma nat_millis: "(nat (t mod 1000) mod 1000 = 0) = (t mod 1000 = 0)"
proof -
  have ge: "0 \<le> t mod 1000" and lt: "t mod 1000 < 1000" by simp_all
  have "nat (t mod 1000) < 1000" using ge lt by linarith
  then have "nat (t mod 1000) mod 1000 = nat (t mod 1000)" by simp
  moreover have "(nat (t mod 1000) = 0) = (t mod 1000 = 0)" using ge by linarith
  ultimately show ?thesis by simp
qed

lemma suffix_same_length:
  assumes "suffix xs (ys @ zs)" and "length xs = length zs"
  shows "xs = zs"
proof -
  from assms(1) obtain ws where "ys @ zs = ws @ xs" by (auto simp add: suffix_def)
  with assms(2) show ?thesis by simp
qed

lemma dec3_zero_iff: "(dec 3 m = ''000'') = (m mod 1000 = 0)"
proof -
  define x where "x = m div 10 div 10 mod 10"
  define y where "y = m div 10 mod 10"
  define z where "z = m mod 10"
  have digits: "(dec 3 m = ''000'') = (x = 0 \<and> y = 0 \<and> z = 0)"
    by (simp add: dec3 digit_char_zero_iff x_def y_def z_def)
  have "m mod (10 * 100) = 10 * (m div 10 mod 100) + m mod 10"
    by (rule mod_mult2_eq)
  moreover have "m div 10 mod (10 * 10) = 10 * (m div 10 div 10 mod 10) + m div 10 mod 10"
    by (rule mod_mult2_eq)
  ultimately have "m mod 1000 = 10 * (10 * x + y) + z"
    by (simp add: x_def y_def z_def)
  then have "(m mod 1000 = 0) = (x = 0 \<and> y = 0 \<and> z = 0)"
    by simp
  with digits show ?thesis by simp
qed

lemma replace_millis:
  "String_replace (''.'' @ dec 3 m @ ''Z'') ''.000Z'' ''Z'' =
     (if m mod 1000 = 0 then ''Z'' else ''.'' @ dec 3 m @ ''Z'')"
proof (cases "m mod 1000 = 0")
  case True
  then have "dec 3 m = ''000''" by (simp add: dec3_zero_iff)
  with True show ?thesis by simp
next
  case False
  then have ne: "dec 3 m \<noteq> ''000''" by (simp add: dec3_zero_iff)
  have np: "\<not> prefix ''.000Z'' (''.'' @ dec 3 m @ ''Z'')"
  proof
    assume "prefix ''.000Z'' (''.'' @ dec 3 m @ ''Z'')"
    then have "m div 10 div 10 mod 10 = 0 \<and> m div 10 mod 10 = 0 \<and> m mod 10 = 0"
      by (simp add: dec3 zero_digit_char_iff)
    then have "dec 3 m = ''000''"
      by (simp add: dec3 digit_char_zero_iff)
    with ne show False by simp
  qed
  have "CHR ''.'' \<notin> set (dec 3 m @ ''Z'')" by (simp add: dot_notin_dec)
  then have "String_replace (dec 3 m @ ''Z'') ''.000Z'' ''Z'' = dec 3 m @ ''Z''"
    by (rule String_replace_none)
  with np False show ?thesis by simp
qed

lemma replace_toISOString:
  "String_replace (toISOString t) ''.000Z'' ''Z'' =
     (if t mod 1000 = 0 then iso_seconds t @ ''Z''
      else iso_seconds t @ ''.'' @ dec 3 (nat (t mod 1000)) @ ''Z'')"
proof -
  note m = nat_millis [of t]
  have "String_replace (iso_seconds t @ (''.'' @ dec 3 (nat (t mod 1000)) @ ''Z'')) ''.000Z'' ''Z'' =
      iso_seconds t @ String_replace (''.'' @ dec 3 (nat (t mod 1000)) @ ''Z'') ''.000Z'' ''Z''"
    using dot_notin_iso_seconds by (rule String_replace_skip)
  then show ?thesis
    unfolding replace_millis m by (simp add: toISOString_def)
qed

lemma not_suffix_millis:
  "\<not> suffix ''.000Z''
     (if t mod 1000 = 0 then iso_seconds t @ ''Z''
      else iso_seconds t @ ''.'' @ dec 3 (nat (t mod 1000)) @ ''Z'')"
proof (cases "t mod 1000 = 0")
  case True
  have "\<not> suffix (''.000'' @ ''Z'') (iso_seconds t @ ''Z'')"
  proof
    assume "suffix (''.000'' @ ''Z'') (iso_seconds t @ ''Z'')"
    then have "suffix ''.000'' (iso_seconds t)" by simp
    then have "set ''.000'' \<subseteq> set (iso_seconds t)" by (rule set_mono_suffix)
    then show False using dot_notin_iso_seconds [of t] by simp
  qed
  with True show ?thesis by simp
next
  case False
  note m = nat_millis [of t]
  have ne: "dec 3 (nat (t mod 1000)) \<noteq> ''000''"
    using False by (simp add: dec3_zero_iff m)
  have len: "length ''.000Z'' = length (''.'' @ dec 3 (nat (t mod 1000)) @ ''Z'')"
    by (simp add: length_dec)
  have "\<not> suffix ''.000Z'' (iso_seconds t @ ''.'' @ dec 3 (nat (t mod 1000)) @ ''Z'')"
  proof
    assume "suffix ''.000Z'' (iso_seconds t @ ''.'' @ dec 3 (nat (t mod 1000)) @ ''Z'')"
    then have "''.000Z'' = ''.'' @ dec 3 (nat (t mod 1000)) @ ''Z''"
      using len by (rule suffix_same_length)
    with ne show False by simp
  qed
  with False show ?thesis by simp
qed

subsection \<open>Record lists as JSON values\<close>

lemma record_of_json_of_record: "record_of_json (json_of_record r) = Some r"
  by (cases r; cases "hardware_rev r"; cases "notes r")
     (simp_all add: json_of_record_def required_string_def optional_string_def member_def)

lemma records_of_json_of_records: "records_of_json (json_of_records rs) = Some rs"
proof -
  have "those (map record_of_json (map json_of_record rs)) = Some rs"
    by (induction rs) (simp_all add: record_of_json_of_record)
  then show ?thesis
    unfolding json_of_records_def records_of_json.simps .
qed

section \<open>The channel filter\<close>

text \<open>
  Claim C3. With show-beta off the channel filter keeps no record whose channel is
  \<open>"beta"\<close> (and so the derived view holds none either); with show-beta on it keeps the
  whole list; in both settings what it keeps is a part of the list it was given.
\<close>

theorem channel_filter_beta:
  "(\<forall>r \<in> set (channel_filter False L). channel r \<noteq> ''beta'') \<and>
   (\<forall>r \<in> set (filtered H L qry False key). channel r \<noteq> ''beta'') \<and>
   channel_filter True L = L \<and>
   set (channel_filter beta L) \<subseteq> set L \<and>
   mset (channel_filter beta L) \<subseteq># mset L"
proof -
  have off: "\<forall>r \<in> set (channel_filter False L). channel r \<noteq> ''beta''"
    by (simp add: channel_filter_def channel_pred_def)
  have view: "\<forall>r \<in> set (filtered H L qry False key). channel r \<noteq> ''beta''"
    by (simp add: set_filtered channel_pred_def)
  have on: "channel_filter True L = L"
    by (simp add: channel_filter_def channel_pred_def)
  have sub: "set (channel_filter beta L) \<subseteq> set L"
    by (simp add: channel_filter_def)
  have msub: "mset (channel_filter beta L) \<subseteq># mset L"
    by (simp add: channel_filter_def)
  from off view on sub msub show ?thesis by blast
qed

theorem channel_filter_beta_witness:
  "INLINE_DATA ! 0 \<in> set (channel_filter False INLINE_DATA) \<and>
   channel (INLINE_DATA ! 0) \<noteq> ''beta'' \<and>
   INLINE_DATA ! 1 \<notin> set (channel_filter False INLINE_DATA) \<and>
   channel_filter True INLINE_DATA = INLINE_DATA"
  using channel_filter_beta [of INLINE_DATA iso_host "[]" SK_product_name True]
  by (simp add: INLINE_DATA_def channel_filter_def channel_pred_def)

text \<open>
  Claim C7. A record whose channel is neither \<open>"approved"\<close> nor \<open>"beta"\<close> passes the
  channel filter under both settings of show-beta, wherever it stands in the list; its
  badge is the one of a record that is not approved.
\<close>

theorem unknown_channel_accepted:
  "channel r \<noteq> ''approved'' \<Longrightarrow> channel r \<noteq> ''beta'' \<Longrightarrow>
     channel_pred beta r \<and>
     channel_filter beta (xs @ r # ys) = channel_filter beta xs @ r # channel_filter beta ys \<and>
     badge_label r = ''Beta''"
  by (simp add: channel_pred_def channel_filter_def badge_label_def)

theorem unknown_channel_accepted_witness:
  "channel ((INLINE_DATA ! 0)\<lparr>channel := ''nightly''\<rparr>) \<noteq> ''approved'' \<and>
   channel ((INLINE_DATA ! 0)\<lparr>channel := ''nightly''\<rparr>) \<noteq> ''beta'' \<and>
   channel_pred False ((INLINE_DATA ! 0)\<lparr>channel := ''nightly''\<rparr>) \<and>
   channel_filter False [(INLINE_DATA ! 0)\<lparr>channel := ''nightly''\<rparr>] =
     [(INLINE_DATA ! 0)\<lparr>channel := ''nightly''\<rparr>]"
  using unknown_channel_accepted [of "(INLINE_DATA ! 0)\<lparr>channel := ''nightly''\<rparr>" False "[]" "[]"]
  by (simp add: channel_filter_def)

section \<open>The derived view as a whole\<close>

text \<open>
  Claim C10. The derived view is a rearrangement of a part of the record list: as a
  multiset it is contained in the multiset of the records, so every record of the view
  is a record of the list and none occurs in the view more often than in the list.
\<close>

theorem filtered_sub_multiset:
  "mset (filtered H L qry beta key) \<subseteq># mset L \<and>
   set (filtered H L qry beta key) \<subseteq> set L \<and>
   count (mset (filtered H L qry beta key)) r \<le> count (mset L) r"
proof -
  have sub: "mset (filtered H L qry beta key) \<subseteq># mset L"
    by (simp add: mset_filtered)
  have "set (filtered H L qry beta key) \<subseteq> set L"
    by (auto simp add: set_filtered)
  moreover have "count (mset (filtered H L qry beta key)) r \<le> count (mset L) r"
    using sub by (rule mset_subset_eq_count)
  ultimately show ?thesis using sub by simp
qed

text \<open>
  Claim C4. Filtering is idempotent. The two filter steps applied to their own result
  change nothing, and the derived view of a derived view (same query, same show-beta,
  same sort key) has the same records, each as often, as the derived view itself.
\<close>

theorem filtering_idempotent:
  "text_filter n (channel_filter beta (text_filter n (channel_filter beta L))) =
     text_filter n (channel_filter beta L) \<and>
   mset (filtered H (filtered H L qry beta key) qry beta key) = mset (filtered H L qry beta key) \<and>
   set (filtered H (filtered H L qry beta key) qry beta key) = set (filtered H L qry beta key)"
proof -
  have steps: "text_filter n (channel_filter beta (text_filter n (channel_filter beta L))) =
      text_filter n (channel_filter beta L)"
    by (induction L) (simp_all add: text_filter_def channel_filter_def)
  have m: "mset (filtered H (filtered H L qry beta key) qry beta key) =
      mset (filtered H L qry beta key)"
    by (simp add: mset_filtered filter_mset_eq_conv multiset_eq_iff)
  have "set (filtered H (filtered H L qry beta key) qry beta key) = set (filtered H L qry beta key)"
    using m by (metis set_mset_mset)
  with steps m show ?thesis by simp
qed

text \<open>
  Claim C8. A query that trims to the empty string (the empty query is one) matches
  every record: the derived view is the channel-filtered list put in the order of the
  sort key, and it has the same records, each as often.
\<close>

theorem empty_query_matches_all:
  "trim qry = [] \<Longrightarrow>
     filtered H L qry beta key = Array_sort (comparator H key) (channel_filter beta L) \<and>
     mset (filtered H L qry beta key) = mset (channel_filter beta L) \<and>
     set (filtered H L qry beta key) = set (channel_filter beta L)"
  by (simp add: filtered_def toLowerCase_def text_filter_empty mset_Array_sort set_Array_sort)

theorem empty_query_matches_all_witness:
  "trim ''  '' = [] \<and> trim [] = [] \<and>
   mset (filtered iso_host INLINE_DATA ''  '' False SK_released_at) =
     mset (channel_filter False INLINE_DATA) \<and>
   mset (filtered iso_host INLINE_DATA [] True SK_product_name) =
     mset (channel_filter True INLINE_DATA)"
proof -
  have blank: "trim ''  '' = []"
    by (simp add: trim_def isWhiteSpace_def)
  have none: "trim [] = []"
    by (simp add: trim_def)
  from blank none
    empty_query_matches_all [OF blank, of iso_host INLINE_DATA False SK_released_at]
    empty_query_matches_all [OF none, of iso_host INLINE_DATA True SK_product_name]
  show ?thesis by blast
qed

section \<open>The order of the derived view\<close>



text \<open>
  Claim C5, as amended. With the sort key release date, and every record of the derived
  view having a \<^verbatim>\<open>released_at\<close> that parses to a valid date, the parsed time values of
  the derived view are non-increasing (most recent first).
\<close>

theorem sort_by_release_date_non_increasing:
  assumes valid: "\<forall>r \<in> set (filtered H L qry beta SK_released_at). Date_getTime H (released_at r) \<noteq> None"
  shows "non_increasing (release_times H (filtered H L qry beta SK_released_at))"
proof -
  define V where "V = text_filter (toLowerCase (trim qry)) (channel_filter beta L)"
  define cmp where "cmp = comparator H SK_released_at"
  have view: "filtered H L qry beta SK_released_at = Array_sort cmp V"
    by (simp add: filtered_def V_def cmp_def)
  have parsed: "\<forall>r \<in> set V. \<exists>t. Date_getTime H (released_at r) = Some t"
    using valid by (simp add: view set_Array_sort)
  have le: "\<And>a b. a \<in> set V \<Longrightarrow> b \<in> set V \<Longrightarrow>
      sort_le cmp a b = Number_ge (Date_getTime H (released_at a)) (Date_getTime H (released_at b))"
  proof -
    fix a b assume "a \<in> set V" and "b \<in> set V"
    then obtain ta tb where "Date_getTime H (released_at a) = Some ta"
      and "Date_getTime H (released_at b) = Some tb" using parsed by blast
    then show "sort_le cmp a b =
        Number_ge (Date_getTime H (released_at a)) (Date_getTime H (released_at b))"
      by (simp add: cmp_def sort_le_date Number_ge_def)
  qed
  have tot: "\<forall>a \<in> set V. \<forall>b \<in> set V. sort_le cmp a b \<or> sort_le cmp b a"
  proof (intro ballI)
    fix a b assume a: "a \<in> set V" and b: "b \<in> set V"
    obtain ta tb where "Date_getTime H (released_at a) = Some ta"
      and "Date_getTime H (released_at b) = Some tb" using parsed a b by blast
    then show "sort_le cmp a b \<or> sort_le cmp b a"
      by (auto simp add: cmp_def sort_le_date)
  qed
  have trans: "\<forall>a \<in> set V. \<forall>b \<in> set V. \<forall>c \<in> set V.
      sort_le cmp a b \<longrightarrow> sort_le cmp b c \<longrightarrow> sort_le cmp a c"
  proof (intro ballI impI)
    fix a b c assume a: "a \<in> set V" and b: "b \<in> set V" and c: "c \<in> set V"
      and ab: "sort_le cmp a b" and bc: "sort_le cmp b c"
    obtain ta tb tc where "Date_getTime H (released_at a) = Some ta"
      and "Date_getTime H (released_at b) = Some tb"
      and "Date_getTime H (released_at c) = Some tc" using parsed a b c by blast
    then show "sort_le cmp a c"
      using ab bc by (simp add: cmp_def sort_le_date)
  qed
  have "sorted_wrt (sort_le cmp) (Array_sort cmp V)"
    by (rule sorted_Array_sort_aux [OF tot trans]) simp
  then have "sorted_wrt (\<lambda>a b. Number_ge (Date_getTime H (released_at a)) (Date_getTime H (released_at b)))
      (Array_sort cmp V)"
    by (rule sorted_wrt_mono_rel [rotated]) (simp add: le set_Array_sort)
  then show ?thesis
    by (simp add: non_increasing_def release_times_def sorted_wrt_map view)
qed

theorem sort_by_release_date_non_increasing_witness:
  "non_increasing (release_times iso_host (filtered iso_host INLINE_DATA [] True SK_released_at)) \<and>
   release_times iso_host (filtered iso_host INLINE_DATA [] True SK_released_at) =
     [Some 1755741660000, Some 1755681300000, Some 1755280800000, Some 1754788200000]"
proof -
  have valid: "\<forall>r \<in> set (filtered iso_host INLINE_DATA [] True SK_released_at).
      Date_getTime iso_host (released_at r) \<noteq> None"
    by code_simp
  have times: "release_times iso_host (filtered iso_host INLINE_DATA [] True SK_released_at) =
      [Some 1755741660000, Some 1755681300000, Some 1755280800000, Some 1754788200000]"
    by code_simp
  from times sort_by_release_date_non_increasing [OF valid]
  show ?thesis by blast
qed

text \<open>
  The claim as stated fails on a record whose \<^verbatim>\<open>released_at\<close> does not parse: the
  comparator returns NaN for every pair with that record, which the sort reads as a
  tie. Of an unparseable record followed by a dated one, the time values are NaN and
  then a number. Of a record of 10 August, an unparseable one and a record of
  20 August, the view keeps this order, the earlier date before the later.
\<close>

theorem sort_by_release_date_counterexample:
  "\<not> non_increasing (release_times iso_host
        (filtered iso_host [(INLINE_DATA ! 2)\<lparr>released_at := []\<rparr>, INLINE_DATA ! 0]
           [] True SK_released_at)) \<and>
   release_times iso_host
     (filtered iso_host
        [INLINE_DATA ! 3, (INLINE_DATA ! 2)\<lparr>released_at := []\<rparr>, INLINE_DATA ! 0]
        [] True SK_released_at) =
     [Some 1754788200000, None, Some 1755681300000] \<and>
   \<not> non_increasing (release_times iso_host
        (filtered iso_host
           [INLINE_DATA ! 3, (INLINE_DATA ! 2)\<lparr>released_at := []\<rparr>, INLINE_DATA ! 0]
           [] True SK_released_at))"
  by code_simp

section \<open>The last-updated date\<close>

text \<open>
  Claim C1, as amended. Over the empty list the last-updated date is the fallback
  \<open>"1970-01-01T00:00:00Z"\<close>. Over any list it is the latest of the fallback and the
  \<^verbatim>\<open>released_at\<close> dates of all records of the list that parse (the list as held, not
  the derived view); so it is the maximum \<^verbatim>\<open>released_at\<close> as soon as one record is
  dated at or after the fallback. The host is taken to parse the fallback.
\<close>

theorem lastUpdated_latest:
  assumes fb: "Date_getTime H ''1970-01-01T00:00:00Z'' = Some t0"
  shows "lastUpdated H [] = Some t0 \<and>
         lastUpdated H L = Some (Max (set (t0 # valid_times H L))) \<and>
         ((\<exists>t \<in> set (valid_times H L). t0 \<le> t) \<longrightarrow>
            lastUpdated H L = Some (Max (set (valid_times H L))))"
proof -
  have empty: "lastUpdated H [] = Some t0"
    using fb by (simp add: lastUpdated_def latest_def)
  have general: "lastUpdated H L = Some (Max (set (t0 # valid_times H L)))"
    unfolding lastUpdated_def latest_def using fb by (rule latest_fold)
  have "lastUpdated H L = Some (Max (set (valid_times H L)))"
    if "\<exists>t \<in> set (valid_times H L). t0 \<le> t"
  proof -
    from that obtain t where t: "t \<in> set (valid_times H L)" and le: "t0 \<le> t" by blast
    have "t \<le> Max (set (valid_times H L))" using t by (simp add: Max_ge)
    then have "t0 \<le> Max (set (valid_times H L))" using le by simp
    moreover have "set (valid_times H L) \<noteq> {}" using t by auto
    ultimately have "Max (insert t0 (set (valid_times H L))) = Max (set (valid_times H L))"
      by (simp add: Max_insert max_def)
    with general show ?thesis by simp
  qed
  with empty general show ?thesis by blast
qed

theorem lastUpdated_latest_witness:
  "Date_getTime iso_host ''1970-01-01T00:00:00Z'' = Some 0 \<and>
   lastUpdated iso_host [] = Some 0 \<and>
   (\<exists>t \<in> set (valid_times iso_host INLINE_DATA). 0 \<le> t) \<and>
   Max (set (valid_times iso_host INLINE_DATA)) = 1755741660000 \<and>
   lastUpdated iso_host INLINE_DATA = Some 1755741660000"
proof -
  have fb: "Date_getTime iso_host ''1970-01-01T00:00:00Z'' = Some 0"
    by code_simp
  have ex: "\<exists>t \<in> set (valid_times iso_host INLINE_DATA). 0 \<le> t"
    by code_simp
  have mx: "Max (set (valid_times iso_host INLINE_DATA)) = 1755741660000"
    by code_simp
  note known = lastUpdated_latest [OF fb, of INLINE_DATA]
  have "lastUpdated iso_host INLINE_DATA = Some (Max (set (valid_times iso_host INLINE_DATA)))"
    using ex known by blast
  then have full: "lastUpdated iso_host INLINE_DATA = Some 1755741660000"
    unfolding mx .
  have "lastUpdated iso_host [] = Some 0"
    using known by blast
  with full fb ex mx show ?thesis
    by blast
qed

text \<open>
  The claim as stated fails on a list whose records are all dated before 1970: the
  fold starts from the fallback and only a later date replaces it.
\<close>

theorem lastUpdated_max_counterexample:
  "valid_times iso_host [(INLINE_DATA ! 0)\<lparr>released_at := ''1969-12-31T23:59:59Z''\<rparr>] = [- 1000] \<and>
   lastUpdated iso_host [(INLINE_DATA ! 0)\<lparr>released_at := ''1969-12-31T23:59:59Z''\<rparr>] = Some 0 \<and>
   lastUpdated iso_host [(INLINE_DATA ! 0)\<lparr>released_at := ''1969-12-31T23:59:59Z''\<rparr>] \<noteq>
     Some (Max (set (valid_times iso_host
       [(INLINE_DATA ! 0)\<lparr>released_at := ''1969-12-31T23:59:59Z''\<rparr>])))"
  by code_simp

section \<open>The fetch effect\<close>

text \<open>
  Claim C2, as amended. In remote mode the loading flag is cleared whatever the fetch
  settles to. When the fetch rejects, or the response has a status outside 200 to 299,
  or reading the body as JSON rejects, the record slot holds what it held before and
  the error message is the failure converted to a string; for a failing status that
  string is \<open>"Error: HTTP "\<close> followed by the status in decimal, so it contains the
  status. A body of a response with a status from 200 to 299 that is JSON is stored in
  the record slot whatever its shape, and the error is cleared.
\<close>

theorem fetch_effect_failure:
  "loading (fetch_effect Remote outcome st) = False \<and>
   records (fetch_effect Remote (Inl e) st) = records st \<and>
   error (fetch_effect Remote (Inl e) st) = Some (String_of_error e) \<and>
   (\<not> ok r \<longrightarrow>
      records (fetch_effect Remote (Inr r) st) = records st \<and>
      error (fetch_effect Remote (Inr r) st) = Some (''Error: HTTP '' @ show_nat (status r)) \<and>
      str_includes (''Error: HTTP '' @ show_nat (status r)) (show_nat (status r))) \<and>
   (ok r \<and> json r = Inl e \<longrightarrow>
      records (fetch_effect Remote (Inr r) st) = records st \<and>
      error (fetch_effect Remote (Inr r) st) = Some (String_of_error e)) \<and>
   (settled outcome = Inl e \<longrightarrow>
      records (fetch_effect Remote outcome st) = records st \<and>
      error (fetch_effect Remote outcome st) = Some (String_of_error e)) \<and>
   (ok r \<and> json r = Inr j \<longrightarrow>
      records (fetch_effect Remote (Inr r) st) = j \<and>
      error (fetch_effect Remote (Inr r) st) = None)"
proof -
  have fin: "loading (fetch_effect Remote outcome st) = False"
    by (simp add: fetch_effect_def on_finally_def Let_def)
  have rej: "records (fetch_effect Remote out st) = records st \<and>
      error (fetch_effect Remote out st) = Some (String_of_error e)"
    if "settled out = Inl e" for out e
    using that by (simp add: fetch_effect_def on_finally_def on_catch_def Let_def)
  have net: "settled (Inl e) = Inl e"
    by (simp add: settled_def)
  have http: "settled (Inr r) = Inl (Error (''HTTP '' @ show_nat (status r)))" if "\<not> ok r"
    using that by (simp add: settled_def on_response_def)
  have parse: "settled (Inr r) = Inl e" if "ok r" and "json r = Inl e"
    using that by (simp add: settled_def on_response_def)
  have msg: "String_of_error (Error (''HTTP '' @ show_nat (status r))) =
      ''Error: HTTP '' @ show_nat (status r)"
    by (simp add: error_text_def)
  have inc: "str_includes (''Error: HTTP '' @ show_nat (status r)) (show_nat (status r))"
    by (rule str_includes_append)
  have c_net: "records (fetch_effect Remote (Inl e) st) = records st \<and>
      error (fetch_effect Remote (Inl e) st) = Some (String_of_error e)"
    using net by (rule rej)
  have c_http: "\<not> ok r \<longrightarrow>
      records (fetch_effect Remote (Inr r) st) = records st \<and>
      error (fetch_effect Remote (Inr r) st) = Some (''Error: HTTP '' @ show_nat (status r)) \<and>
      str_includes (''Error: HTTP '' @ show_nat (status r)) (show_nat (status r))"
  proof
    assume "\<not> ok r"
    then have "settled (Inr r) = Inl (Error (''HTTP '' @ show_nat (status r)))" by (rule http)
    then have "records (fetch_effect Remote (Inr r) st) = records st \<and>
        error (fetch_effect Remote (Inr r) st) =
          Some (String_of_error (Error (''HTTP '' @ show_nat (status r))))"
      by (rule rej)
    with msg inc show "records (fetch_effect Remote (Inr r) st) = records st \<and>
        error (fetch_effect Remote (Inr r) st) = Some (''Error: HTTP '' @ show_nat (status r)) \<and>
        str_includes (''Error: HTTP '' @ show_nat (status r)) (show_nat (status r))"
      by simp
  qed
  have c_parse: "ok r \<and> json r = Inl e \<longrightarrow>
      records (fetch_effect Remote (Inr r) st) = records st \<and>
      error (fetch_effect Remote (Inr r) st) = Some (String_of_error e)"
    using rej parse by blast
  have c_any: "settled outcome = Inl e \<longrightarrow>
      records (fetch_effect Remote outcome st) = records st \<and>
      error (fetch_effect Remote outcome st) = Some (String_of_error e)"
    using rej by blast
  have c_body: "ok r \<and> json r = Inr j \<longrightarrow>
      records (fetch_effect Remote (Inr r) st) = j \<and>
      error (fetch_effect Remote (Inr r) st) = None"
    by (simp add: fetch_effect_def settled_def on_response_def on_json_def on_finally_def Let_def)
  from fin c_net c_http c_parse c_any c_body show ?thesis by blast
qed

theorem fetch_effect_failure_witness:
  "\<not> ok \<lparr>status = 500, json = Inr (JArray [] :: int json_value)\<rparr> \<and>
   records (fetch_effect Remote (Inr \<lparr>status = 500, json = Inr (JArray [])\<rparr>)
              (initial_state Remote :: int State)) =
     json_of_records INLINE_DATA \<and>
   error (fetch_effect Remote (Inr \<lparr>status = 500, json = Inr (JArray [])\<rparr>)
            (initial_state Remote :: int State)) =
     Some ''Error: HTTP 500'' \<and>
   loading (fetch_effect Remote (Inr \<lparr>status = 500, json = Inr (JArray [])\<rparr>)
              (initial_state Remote :: int State)) =
     False \<and>
   str_includes ''Error: HTTP 500'' ''500'' \<and>
   ok \<lparr>status = 200,
       json = (Inl (SyntaxError ''Unexpected end of JSON input'') :: js_error + int json_value)\<rparr> \<and>
   settled (Inr \<lparr>status = 200, json = Inl (SyntaxError ''Unexpected end of JSON input'')\<rparr>) =
     (Inl (SyntaxError ''Unexpected end of JSON input'') :: js_error + int json_value) \<and>
   error (fetch_effect Remote
            (Inr \<lparr>status = 200, json = Inl (SyntaxError ''Unexpected end of JSON input'')\<rparr>)
            (initial_state Remote :: int State)) =
     Some ''SyntaxError: Unexpected end of JSON input'' \<and>
   ok \<lparr>status = 200, json = Inr (json_of_records (take 1 INLINE_DATA) :: int json_value)\<rparr> \<and>
   records (fetch_effect Remote
              (Inr \<lparr>status = 200, json = Inr (json_of_records (take 1 INLINE_DATA))\<rparr>)
              (initial_state Remote :: int State)) =
     json_of_records (take 1 INLINE_DATA) \<and>
   error (fetch_effect Remote
            (Inr \<lparr>status = 200, json = Inr (json_of_records (take 1 INLINE_DATA))\<rparr>)
            (initial_state Remote :: int State)) =
     None"
proof -
  define st0 :: "int State" where "st0 = initial_state Remote"
  define r500 :: "int Response" where "r500 = \<lparr>status = 500, json = Inr (JArray [])\<rparr>"
  define bad :: js_error where "bad = SyntaxError ''Unexpected end of JSON input''"
  define r200 :: "int Response" where "r200 = \<lparr>status = 200, json = Inl bad\<rparr>"
  define fresh :: "int json_value" where "fresh = json_of_records (take 1 INLINE_DATA)"
  define r201 :: "int Response" where "r201 = \<lparr>status = 200, json = Inr fresh\<rparr>"
  have digits: "show_nat 500 = ''500''"
    by code_simp
  have nok: "\<not> ok r500"
    by (simp add: ok_def r500_def)
  have okay: "ok r200 \<and> json r200 = Inl bad"
    by (simp add: ok_def r200_def)
  have sett: "settled (Inr r200) = Inl bad"
    by (simp add: settled_def on_response_def ok_def r200_def)
  have good: "ok r201 \<and> json r201 = Inr fresh"
    by (simp add: ok_def r201_def)
  have a: "records (fetch_effect Remote (Inr r500) st0) = records st0 \<and>
      error (fetch_effect Remote (Inr r500) st0) =
        Some (''Error: HTTP '' @ show_nat (status r500)) \<and>
      str_includes (''Error: HTTP '' @ show_nat (status r500)) (show_nat (status r500)) \<and>
      loading (fetch_effect Remote (Inr r500) st0) = False"
    using nok fetch_effect_failure [of "Inr r500" st0 bad r500 fresh] by blast
  have b: "error (fetch_effect Remote (Inr r200) st0) = Some (String_of_error bad)"
    using okay sett fetch_effect_failure [of "Inr r200" st0 bad r200 fresh] by blast
  have c: "records (fetch_effect Remote (Inr r201) st0) = fresh \<and>
      error (fetch_effect Remote (Inr r201) st0) = None"
    using good fetch_effect_failure [of "Inr r201" st0 bad r201 fresh] by blast
  have d: "status r500 = 500" "records st0 = json_of_records INLINE_DATA"
    "String_of_error bad = ''SyntaxError: Unexpected end of JSON input''"
    by (simp_all add: r500_def st0_def initial_state_def bad_def error_text_def)
  from a b c nok okay sett good show ?thesis
    unfolding d digits unfolding r500_def r200_def r201_def bad_def fresh_def st0_def by simp
qed

text \<open>
  The claim as stated fails when parse failure is read as the spec describes it, a body
  that is not a list of records: a response with status 200 and body \<^verbatim>\<open>{}\<close> is JSON
  and not a list of records, yet the record slot, which held the embedded list, now
  holds the object and no error is set.
\<close>

theorem fetch_effect_shape_counterexample:
  "ok \<lparr>status = 200, json = Inr (JObject [] :: int json_value)\<rparr> \<and>
   records_of_json (JObject [] :: int json_value) = None \<and>
   records_of_json (records (initial_state Remote :: int State)) = Some INLINE_DATA \<and>
   records (fetch_effect Remote (Inr \<lparr>status = 200, json = Inr (JObject [])\<rparr>)
              (initial_state Remote :: int State)) = JObject [] \<and>
   records (fetch_effect Remote (Inr \<lparr>status = 200, json = Inr (JObject [])\<rparr>)
              (initial_state Remote :: int State)) \<noteq> records (initial_state Remote :: int State) \<and>
   error (fetch_effect Remote (Inr \<lparr>status = 200, json = Inr (JObject [])\<rparr>)
            (initial_state Remote :: int State)) = None"
proof -
  define st0 :: "int State" where "st0 = initial_state Remote"
  define r :: "int Response" where "r = \<lparr>status = 200, json = Inr (JObject [])\<rparr>"
  have okay: "ok r"
    by (simp add: ok_def r_def)
  have shape: "records_of_json (JObject [] :: int json_value) = None"
    by simp
  have held: "records_of_json (records st0) = Some INLINE_DATA"
    by (simp add: st0_def initial_state_def records_of_json_of_records)
  have after: "records (fetch_effect Remote (Inr r) st0) = JObject [] \<and>
      error (fetch_effect Remote (Inr r) st0) = None"
    by (simp add: ok_def fetch_effect_def settled_def on_response_def on_json_def on_finally_def
        Let_def r_def)
  have "JObject [] \<noteq> records st0"
    by (simp add: st0_def initial_state_def json_of_records_def)
  with after have changed: "records (fetch_effect Remote (Inr r) st0) \<noteq> records st0"
    by simp
  from okay shape held after changed show ?thesis
    unfolding st0_def r_def by blast
qed

section \<open>The release date of a card\<close>

text \<open>
  Claim C6, as amended. For every record whose \<^verbatim>\<open>released_at\<close> parses to a valid
  date, the release-date cell is that date in the UTC ISO form of \<^verbatim>\<open>toISOString\<close>,
  with the seconds followed directly by \<open>"Z"\<close> when the milliseconds are zero and by
  the three millisecond digits and \<open>"Z"\<close> otherwise; it ends with \<open>"Z"\<close> and never with
  \<open>".000Z"\<close>.
\<close>

theorem release_date_cell_valid:
  assumes "Date_getTime H (released_at r) = Some t"
  shows "release_date_cell H r =
           Inr (if t mod 1000 = 0 then iso_seconds t @ ''Z''
                else iso_seconds t @ ''.'' @ dec 3 (nat (t mod 1000)) @ ''Z'') \<and>
         (\<exists>s. release_date_cell H r = Inr (s @ ''Z'') \<and> \<not> suffix ''.000Z'' (s @ ''Z''))"
proof -
  let ?out = "if t mod 1000 = 0 then iso_seconds t @ ''Z''
              else iso_seconds t @ ''.'' @ dec 3 (nat (t mod 1000)) @ ''Z''"
  have cell: "release_date_cell H r = Inr ?out"
    using assms by (simp add: release_date_cell_def Date_toISOString_def replace_toISOString)
  have shape: "\<exists>s. ?out = s @ ''Z''"
    by (cases "t mod 1000 = 0") auto
  then obtain s where s: "?out = s @ ''Z''" by blast
  have "\<not> suffix ''.000Z'' ?out" by (rule not_suffix_millis)
  then have "\<not> suffix ''.000Z'' (s @ ''Z'')" unfolding s .
  moreover have "release_date_cell H r = Inr (s @ ''Z'')" using cell unfolding s .
  ultimately show ?thesis using cell by blast
qed

theorem release_date_cell_valid_witness:
  "Date_getTime iso_host (released_at (INLINE_DATA ! 0)) = Some 1755681300000 \<and>
   release_date_cell iso_host (INLINE_DATA ! 0) = Inr ''2025-08-20T09:15:00Z''"
proof -
  have parsed: "Date_getTime iso_host (released_at (INLINE_DATA ! 0)) = Some 1755681300000"
    by code_simp
  have secs: "iso_seconds 1755681300000 = ''2025-08-20T09:15:00''"
    by code_simp
  have "release_date_cell iso_host (INLINE_DATA ! 0) =
      Inr (if (1755681300000 :: int) mod 1000 = 0 then iso_seconds 1755681300000 @ ''Z''
           else iso_seconds 1755681300000 @ ''.'' @ dec 3 (nat (1755681300000 mod 1000)) @ ''Z'')"
    using release_date_cell_valid [OF parsed] by blast
  then have "release_date_cell iso_host (INLINE_DATA ! 0) = Inr ''2025-08-20T09:15:00Z''"
    unfolding secs by simp
  with parsed show ?thesis by simp
qed

text \<open>
  The claim as stated fails on a record whose \<^verbatim>\<open>released_at\<close> does not parse:
  \<^verbatim>\<open>toISOString\<close> throws a RangeError on the Invalid Date and no string is rendered.
\<close>

theorem release_date_cell_invalid_counterexample:
  "release_date_cell iso_host ((INLINE_DATA ! 0)\<lparr>released_at := []\<rparr>) =
     Inl (RangeError ''Invalid time value'')"
  by code_simp

end
